theory Spec2Isabelle
  imports Complex_Main "HOL-Library.Multiset"
begin

section \<open>Data model (data/types.py)\<close>

text \<open>
  Modelled from the spec: the module \<open>data.types\<close> (the classes \<open>Dose\<close>, \<open>Slice\<close>,
  \<open>Source\<close> and \<open>Vaccinated\<close>) is imported by \<open>data/inference.py\<close> but is not part of
  the sources.  Section 3 of the specification gives its shape: every dimension is a
  closed vocabulary with one distinguished wildcard member, \<open>Dose\<close> has at least the
  members \<open>DOSE_1\<close>, \<open>DOSE_2\<close> and \<open>DOSE_2_PLUS_WAIT\<close>, and an observation carries a
  source, a count, a slice and the two provenance flags (both \<open>False\<close> unless given).
  No proof below depends on a vocabulary having no further members.

  Calendar dates are proleptic Gregorian ordinals (\<open>date.toordinal()\<close>), so that a
  \<open>timedelta\<close> of \<open>n\<close> days is the integer \<open>n\<close>; the bounds \<open>date.min\<close> and \<open>date.max\<close> are
  not modelled.  Counts are exact rationals: Python's integers are embedded, and the
  binary floating point rounding of \<open>/\<close> is not modelled.
\<close>

datatype Dose = DOSE_ALL | DOSE_1 | DOSE_2 | DOSE_2_PLUS_WAIT

datatype Group = GROUP_ALL | GROUP string

datatype Location = LOCATION_ALL | LOCATION string

record Source =
  origin :: string
  data_date :: int
  real_date :: int
  period :: string

record Slice =
  dose :: Dose
  group :: Group
  location :: Location

record Vaccinated =
  source :: Source
  vaccinated :: rat
  slice :: Slice
  extrapolated :: bool
  interpolated :: bool

text \<open>The exceptions the module can raise.\<close>

datatype error = ValueError | IndexError | ZeroDivisionError | AssertionError

text \<open>
  \<open>getattr(slice, dim)\<close> for \<open>dim\<close> ranging over \<open>__SLICE_DIMS\<close>: the three dimension
  names, the value read (tagged with the dimension's type), \<open>is_all()\<close> on it, and
  \<open>replace(slice, **{dim: value})\<close>.
\<close>

datatype Dim = DimDose | DimGroup | DimLocation

datatype DimValue = DoseV Dose | GroupV Group | LocationV Location

definition SLICE_DIMS :: "Dim list" where
  "SLICE_DIMS = [DimDose, DimGroup, DimLocation]"

text \<open>\<open>__FIRST_DAILY_DATA = date(2021, 1, 9)\<close>, as an ordinal.\<close>

definition FIRST_DAILY_DATA :: int where
  "FIRST_DAILY_DATA = 737799"

fun getattr :: "Slice \<Rightarrow> Dim \<Rightarrow> DimValue" where
  "getattr s DimDose = DoseV (dose s)"
| "getattr s DimGroup = GroupV (group s)"
| "getattr s DimLocation = LocationV (location s)"

fun is_all :: "DimValue \<Rightarrow> bool" where
  "is_all (DoseV d) = (d = DOSE_ALL)"
| "is_all (GroupV g) = (g = GROUP_ALL)"
| "is_all (LocationV l) = (l = LOCATION_ALL)"

text \<open>
  A value is only ever written back to the dimension it was read from; the remaining
  combinations do not occur and leave the slice as it is.
\<close>

fun replace_dim :: "Slice \<Rightarrow> Dim \<Rightarrow> DimValue \<Rightarrow> Slice" where
  "replace_dim s DimDose (DoseV d) = s\<lparr>dose := d\<rparr>"
| "replace_dim s DimGroup (GroupV g) = s\<lparr>group := g\<rparr>"
| "replace_dim s DimLocation (LocationV l) = s\<lparr>location := l\<rparr>"
| "replace_dim s _ _ = s"

definition other_dims :: "Dim \<Rightarrow> Dim list" where
  "other_dims dm = filter (\<lambda>d. d \<noteq> dm) SLICE_DIMS"

section \<open>Python idioms\<close>

text \<open>
  Iterating over a Python \<open>set\<close> visits every distinct element once, in an order the
  language does not fix.  The order is a parameter \<open>it\<close> of every function that iterates
  over a set: \<open>set_iter it xs\<close> is the order \<open>it\<close> proposes for the elements of \<open>xs\<close> when
  that is an enumeration of them without repetition, and the order of first occurrence
  otherwise.  Every theorem below holds for every \<open>it\<close>, hence for every iteration order.
\<close>

definition set_iter :: "('a list \<Rightarrow> 'a list) \<Rightarrow> 'a list \<Rightarrow> 'a list" where
  "set_iter it xs =
     (if distinct (it xs) \<and> set (it xs) = set xs then it xs else remdups xs)"

text \<open>Sequencing of computations that may raise.\<close>

fun ebind :: "error + 'a \<Rightarrow> ('a \<Rightarrow> error + 'b) \<Rightarrow> error + 'b" where
  "ebind (Inl e) f = Inl e"
| "ebind (Inr x) f = f x"

text \<open>\<open>int(x)\<close> on a number: truncation toward zero.\<close>

definition py_int :: "rat \<Rightarrow> int" where
  "py_int x = (if 0 \<le> x then \<lfloor>x\<rfloor> else \<lceil>x\<rceil>)"

section \<open>Aggregate suppression\<close>

text \<open>\<open>remove_aggregates\<close>: a generator with three \<open>continue\<close> guards before the \<open>yield\<close>.\<close>

fun remove_aggregates :: "Vaccinated list \<Rightarrow> Vaccinated list" where
  "remove_aggregates [] = []"
| "remove_aggregates (v # vs) =
     (if is_all (GroupV (group (slice v))) \<or> is_all (DoseV (dose (slice v)))
      then remove_aggregates vs
      else if \<not> is_all (LocationV (location (slice v)))
      then remove_aggregates vs
      else if FIRST_DAILY_DATA \<le> real_date (source v) \<and> period (source v) = ''weekly''
      then remove_aggregates vs
      else v # remove_aggregates vs)"

section \<open>Cumulative conversion\<close>











section \<open>Forecasting\<close>

text \<open>\<open>max(...)\<close> over a generator: \<open>ValueError\<close> when it yields nothing.\<close>

definition py_max :: "int list \<Rightarrow> error + int" where
  "py_max xs = (case xs of [] \<Rightarrow> Inl ValueError | x # rest \<Rightarrow> Inr (fold max rest x))"








section \<open>Dose timing\<close>

text \<open>
  The dictionary \<open>dose1s_by_date_slice\<close>: a later observation with the same key replaces
  an earlier one.
\<close>

definition dose1s_by_date_slice :: "Vaccinated list \<Rightarrow> (int \<times> Location \<times> Group) \<rightharpoonup> rat" where
  "dose1s_by_date_slice vs =
     fold (\<lambda>v m. if dose (slice v) = DOSE_1
                  then m((real_date (source v), location (slice v), group (slice v))
                           \<mapsto> vaccinated v)
                  else m)
          vs Map.empty"

fun dose_lag_loop ::
  "((int \<times> Location \<times> Group) \<rightharpoonup> rat) \<Rightarrow> Vaccinated list \<Rightarrow> Vaccinated list" where
  "dose_lag_loop d1s [] = []"
| "dose_lag_loop d1s (v # vs) =
     (if dose (slice v) \<noteq> DOSE_2 then v # dose_lag_loop d1s vs
      else (case d1s (real_date (source v) - 84, location (slice v), group (slice v)) of
              None \<Rightarrow> v # dose_lag_loop d1s vs
            | Some dose1 \<Rightarrow>
                v\<lparr>vaccinated := max (vaccinated v) dose1, extrapolated := True\<rparr>
                  # dose_lag_loop d1s vs))"

definition add_12w_dose_lag :: "Vaccinated list \<Rightarrow> Vaccinated list" where
  "add_12w_dose_lag vs = dose_lag_loop (dose1s_by_date_slice vs) vs"

fun dose_2_wait_loop :: "int \<Rightarrow> Vaccinated list \<Rightarrow> Vaccinated list" where
  "dose_2_wait_loop max_date [] = []"
| "dose_2_wait_loop max_date (v # vs) =
     (if dose (slice v) \<noteq> DOSE_2 then dose_2_wait_loop max_date vs
      else (let wait_date = real_date (source v) + 7 in
            v\<lparr>slice := (slice v)\<lparr>dose := DOSE_2_PLUS_WAIT\<rparr>,
              source := (source v)\<lparr>real_date := wait_date\<rparr>,
              extrapolated := max_date < wait_date\<rparr>
              # dose_2_wait_loop max_date vs))"

definition add_dose_2_wait :: "Vaccinated list \<Rightarrow> error + Vaccinated list" where
  "add_dose_2_wait vs =
     ebind (py_max (map (\<lambda>v. real_date (source v)) (filter (\<lambda>v. \<not> extrapolated v) vs)))
       (\<lambda>max_date. Inr (vs @ dose_2_wait_loop max_date vs))"

section \<open>Deaggregation\<close>

text \<open>
  The diagnostic that \<open>deaggregate_with_interpolation\<close> prints: the slice and the
  \<open>real_date\<close> of the aggregate and the number of weekly samples.  A function that prints
  returns the lines printed next to its result.
\<close>

datatype diagnostic = Failed_to_interpolate Slice int nat

text \<open>\<open>xs[i]\<close> for a non-negative index.\<close>

definition py_index :: "'a list \<Rightarrow> nat \<Rightarrow> error + 'a" where
  "py_index xs i = (if i < length xs then Inr (xs ! i) else Inl IndexError)"

text \<open>A list comprehension whose element expression may raise.\<close>

fun emap :: "('a \<Rightarrow> error + 'b) \<Rightarrow> 'a list \<Rightarrow> error + 'b list" where
  "emap f [] = Inr []"
| "emap f (x # xs) = ebind (f x) (\<lambda>y. ebind (emap f xs) (\<lambda>ys. Inr (y # ys)))"

text \<open>The list \<open>vaccinated_weekly\<close> of \<open>deaggregate_with_interpolation\<close>.\<close>

definition vaccinated_weekly :: "Vaccinated \<Rightarrow> Dim \<Rightarrow> Vaccinated list \<Rightarrow> Vaccinated list" where
  "vaccinated_weekly aggregate dm vs =
     filter (\<lambda>v. period (source v) = ''weekly''
                \<and> \<not> is_all (getattr (slice v) dm)
                \<and> list_all (\<lambda>other_dim. getattr (slice v) other_dim
                                           = getattr (slice aggregate) other_dim)
                            (other_dims dm))
            vs"

text \<open>
  The list \<open>dates\<close>: the distinct weekly dates sorted by their distance to the
  aggregate's \<open>real_date\<close> (a stable sort of the set's iteration order), the first two of
  them, sorted.
\<close>

definition nearest_dates ::
  "(int list \<Rightarrow> int list) \<Rightarrow> Vaccinated \<Rightarrow> Vaccinated list \<Rightarrow> int list" where
  "nearest_dates itd aggregate weekly =
     sort (take 2 (sort_key (\<lambda>d. \<bar>d - real_date (source aggregate)\<bar>)
                            (set_iter itd (map (\<lambda>v. real_date (source v)) weekly))))"

definition dim_date_vaccinated ::
  "Dim \<Rightarrow> int list \<Rightarrow> Vaccinated list \<Rightarrow> (DimValue \<times> int \<times> rat) list" where
  "dim_date_vaccinated dm dates weekly =
     map (\<lambda>v. (getattr (slice v) dm, real_date (source v), vaccinated v))
         (filter (\<lambda>v. real_date (source v) \<in> set dates) weekly)"

text \<open>
  \<open>sum(v for d, ddate, v in dim_date_vaccinated if ddate == dates[i] and P(d))\<close>: the
  index \<open>dates[i]\<close> is evaluated for every triple, so it raises unless there is none.
\<close>

definition sum_on ::
  "(DimValue \<times> int \<times> rat) list \<Rightarrow> int list \<Rightarrow> nat \<Rightarrow> (DimValue \<Rightarrow> bool) \<Rightarrow> error + rat" where
  "sum_on ddv dates i P =
     (if ddv = [] then Inr 0
      else ebind (py_index dates i) (\<lambda>date_i.
             Inr (sum_list (map (\<lambda>(d, ddate, v). v)
                                (filter (\<lambda>(d, ddate, v). ddate = date_i \<and> P d) ddv)))))"

text \<open>\<open>ratio0\<close> and \<open>ratio1\<close>: numerator, then denominator, then the division.\<close>

definition ratio_on ::
  "(DimValue \<times> int \<times> rat) list \<Rightarrow> int list \<Rightarrow> nat \<Rightarrow> DimValue \<Rightarrow> error + rat" where
  "ratio_on ddv dates i dim_value =
     ebind (sum_on ddv dates i (\<lambda>d. d = dim_value)) (\<lambda>numerator.
     ebind (sum_on ddv dates i (\<lambda>d. True)) (\<lambda>denominator.
       if denominator = 0 then Inl ZeroDivisionError else Inr (numerator / denominator)))"

text \<open>The body of the loop over the values of the dimension.\<close>

definition interpolate ::
  "Vaccinated \<Rightarrow> Dim \<Rightarrow> (DimValue \<times> int \<times> rat) list \<Rightarrow> int list \<Rightarrow> DimValue
     \<Rightarrow> error + Vaccinated" where
  "interpolate aggregate dm ddv dates dim_value =
     ebind (ratio_on ddv dates 0 dim_value) (\<lambda>ratio0.
     ebind (ratio_on ddv dates 1 dim_value) (\<lambda>ratio1.
     ebind (py_index dates 1) (\<lambda>date1.
     ebind (py_index dates 0) (\<lambda>date0.
       if date1 - date0 = 0 then Inl ZeroDivisionError
       else (let ratio_delta_per_day = (ratio1 - ratio0) / of_int (date1 - date0);
                 ratio = ratio0
                   + ratio_delta_per_day * of_int (data_date (source aggregate) - date0)
             in Inr \<lparr>source = source aggregate,
                     vaccinated = of_int (py_int (vaccinated aggregate * ratio)),
                     slice = replace_dim (slice aggregate) dm dim_value,
                     extrapolated = False,
                     interpolated = True\<rparr>)))))"

definition deaggregate_with_interpolation ::
  "(int list \<Rightarrow> int list) \<Rightarrow> (DimValue list \<Rightarrow> DimValue list)
     \<Rightarrow> Vaccinated \<Rightarrow> Dim \<Rightarrow> Vaccinated list
     \<Rightarrow> diagnostic list \<times> (error + Vaccinated list)" where
  "deaggregate_with_interpolation itd itv aggregate dm vs =
     (let weekly = vaccinated_weekly aggregate dm vs in
      if length weekly < 2
      then ([Failed_to_interpolate (slice aggregate) (real_date (source aggregate))
               (length weekly)], Inr [])
      else (let dates = nearest_dates itd aggregate weekly;
                ddv = dim_date_vaccinated dm dates weekly
            in ([], emap (interpolate aggregate dm ddv dates)
                         (set_iter itv (map (\<lambda>v. getattr (slice v) dm) weekly)))))"

text \<open>
  A loop whose body prints, may raise, and extends a list: the lines printed so far are
  kept when an iteration raises.
\<close>

fun collect ::
  "('a \<Rightarrow> diagnostic list \<times> (error + 'b list)) \<Rightarrow> 'a list
     \<Rightarrow> diagnostic list \<times> (error + 'b list)" where
  "collect f [] = ([], Inr [])"
| "collect f (x # xs) =
     (case f x of
        (printed, Inl e) \<Rightarrow> (printed, Inl e)
      | (printed, Inr ys) \<Rightarrow>
          (case collect f xs of
             (printed', Inl e) \<Rightarrow> (printed @ printed', Inl e)
           | (printed', Inr zs) \<Rightarrow> (printed @ printed', Inr (ys @ zs))))"

text \<open>The list \<open>unaggregates\<close> of \<open>add_deaggregates\<close>.\<close>

definition unaggregates :: "Vaccinated \<Rightarrow> Dim \<Rightarrow> Vaccinated list \<Rightarrow> Vaccinated list" where
  "unaggregates aggregate dm vaccinated_on_date =
     filter (\<lambda>v. \<not> is_all (getattr (slice v) dm)
                \<and> list_all (\<lambda>other_dim. getattr (slice v) other_dim
                                           = getattr (slice aggregate) other_dim
                                         \<and> \<not> is_all (getattr (slice v) other_dim))
                            (other_dims dm)
                \<and> group (slice v) = group (slice aggregate)
                \<and> location (slice v) = location (slice aggregate))
            vaccinated_on_date"

text \<open>
  The body of the loop over the aggregates.  The assertion evaluates
  \<open>difference / unaggregate_sum\<close> only when \<open>difference < 1000\<close> is false.
\<close>

definition aggregate_step ::
  "(int list \<Rightarrow> int list) \<Rightarrow> (DimValue list \<Rightarrow> DimValue list)
     \<Rightarrow> Vaccinated list \<Rightarrow> Dim \<Rightarrow> Vaccinated list \<Rightarrow> Vaccinated
     \<Rightarrow> diagnostic list \<times> (error + Vaccinated list)" where
  "aggregate_step itd itv vs dm vaccinated_on_date aggregate =
     (let peers = unaggregates aggregate dm vaccinated_on_date in
      if length peers = 0 then deaggregate_with_interpolation itd itv aggregate dm vs
      else (let unaggregate_sum = sum_list (map vaccinated peers);
                difference = \<bar>vaccinated aggregate - unaggregate_sum\<bar>
            in if difference < 1000 then ([], Inr [])
               else if unaggregate_sum = 0 then ([], Inl ZeroDivisionError)
               else if difference / unaggregate_sum < 5 / 100 then ([], Inr [])
               else ([], Inl AssertionError)))"

text \<open>The body of the loop over the dates of the daily observations.\<close>

definition date_step ::
  "(int list \<Rightarrow> int list) \<Rightarrow> (DimValue list \<Rightarrow> DimValue list)
     \<Rightarrow> Vaccinated list \<Rightarrow> Vaccinated list \<Rightarrow> Dim \<Rightarrow> int
     \<Rightarrow> diagnostic list \<times> (error + Vaccinated list)" where
  "date_step itd itv vs vaccinated_daily dm date =
     (let vaccinated_on_date = filter (\<lambda>v. real_date (source v) = date) vaccinated_daily;
          aggregates = filter (\<lambda>v. is_all (getattr (slice v) dm)) vaccinated_on_date
      in collect (aggregate_step itd itv vs dm vaccinated_on_date) aggregates)"

definition add_deaggregates ::
  "(int list \<Rightarrow> int list) \<Rightarrow> (DimValue list \<Rightarrow> DimValue list) \<Rightarrow> Vaccinated list
     \<Rightarrow> diagnostic list \<times> (error + Vaccinated list)" where
  "add_deaggregates itd itv vs =
     (let vaccinated_daily = filter (\<lambda>v. period (source v) = ''daily'') vs in
      case collect (\<lambda>dm. collect (date_step itd itv vs vaccinated_daily dm)
                                 (set_iter itd (map (\<lambda>v. real_date (source v))
                                                    vaccinated_daily)))
                   SLICE_DIMS of
        (printed, Inl e) \<Rightarrow> (printed, Inl e)
      | (printed, Inr deaggregates) \<Rightarrow> (printed, Inr (vs @ deaggregates)))"

text \<open>
  What section 4.1 of the specification says: the peers of an aggregate among the daily
  observations of its date (step 2), and the share \<open>ratio(t)\<close> of a value of the dimension
  among the weekly observations of the date \<open>t\<close> (step 4d).
\<close>

definition spec_peers :: "Vaccinated \<Rightarrow> Dim \<Rightarrow> Vaccinated list \<Rightarrow> Vaccinated list" where
  "spec_peers aggregate dm vaccinated_on_date =
     filter (\<lambda>v. \<not> is_all (getattr (slice v) dm)
                \<and> list_all (\<lambda>other_dim. getattr (slice v) other_dim
                                           = getattr (slice aggregate) other_dim
                                         \<and> \<not> is_all (getattr (slice v) other_dim))
                            (other_dims dm))
            vaccinated_on_date"

definition spec_ratio :: "Dim \<Rightarrow> Vaccinated list \<Rightarrow> int \<Rightarrow> DimValue \<Rightarrow> rat" where
  "spec_ratio dm weekly t v =
     sum_list (map vaccinated (filter (\<lambda>w. real_date (source w) = t \<and> getattr (slice w) dm = v) weekly))
     / sum_list (map vaccinated (filter (\<lambda>w. real_date (source w) = t) weekly))"

text \<open>
  The condition under which the assertion of \<open>add_deaggregates\<close> fails: there are peers,
  and the difference to their sum is at least 1000 and at least 5 percent of that sum.
\<close>

definition beyond_tolerance :: "Vaccinated \<Rightarrow> Vaccinated list \<Rightarrow> bool" where
  "beyond_tolerance aggregate peers \<longleftrightarrow>
     peers \<noteq> []
     \<and> 1000 \<le> \<bar>vaccinated aggregate - sum_list (map vaccinated peers)\<bar>
     \<and> sum_list (map vaccinated peers) \<noteq> 0
     \<and> 5 / 100 \<le> \<bar>vaccinated aggregate - sum_list (map vaccinated peers)\<bar>
                     / sum_list (map vaccinated peers)"

section \<open>Example data\<close>

text \<open>
  An observation as ingestion delivers it: \<open>data_date\<close> and \<open>real_date\<close> equal, no flag
  set.
\<close>

definition observation ::
  "string \<Rightarrow> int \<Rightarrow> rat \<Rightarrow> Dose \<Rightarrow> Group \<Rightarrow> Location \<Rightarrow> Vaccinated" where
  "observation p d c ds g l =
     \<lparr>source = \<lparr>origin = ''report'', data_date = d, real_date = d, period = p\<rparr>,
      vaccinated = c,
      slice = \<lparr>dose = ds, group = g, location = l\<rparr>,
      extrapolated = False,
      interpolated = False\<rparr>"


definition one_week_example :: "Vaccinated list" where
  "one_week_example =
     [observation ''daily'' 737794 100 DOSE_ALL (GROUP ''80+'') LOCATION_ALL,
      observation ''weekly'' 737791 60 DOSE_1 (GROUP ''80+'') LOCATION_ALL,
      observation ''weekly'' 737791 40 DOSE_2 (GROUP ''80+'') LOCATION_ALL]"

definition group_peer_example :: "Vaccinated list" where
  "group_peer_example =
     [observation ''daily'' 737794 5000 DOSE_1 GROUP_ALL (LOCATION ''England''),
      observation ''daily'' 737794 100 DOSE_1 (GROUP ''80+'') (LOCATION ''England'')]"

section \<open>Properties\<close>

lemma set_iter_distinct: "distinct (set_iter it xs)"
  by (simp add: set_iter_def)

lemma set_iter_set: "set (set_iter it xs) = set xs"
  by (simp add: set_iter_def)

lemma remove_aggregates_filter:
  "remove_aggregates vs =
     filter (\<lambda>v. dose (slice v) \<noteq> DOSE_ALL \<and> group (slice v) \<noteq> GROUP_ALL
                \<and> location (slice v) = LOCATION_ALL
                \<and> \<not> (period (source v) = ''weekly'' \<and> FIRST_DAILY_DATA \<le> real_date (source v))) vs"
  by (induction vs) auto

text \<open>
  Claim C7.  \<open>remove_aggregates\<close> keeps an observation exactly when its dose and its
  group are not the wildcard, its location is the wildcard, and it is not a weekly
  observation published on or after 2021-01-09; the kept observations are the input's
  own, in the input's order, and a second application changes nothing.
\<close>

theorem remove_aggregates_retains:
  "remove_aggregates vs =
     filter (\<lambda>v. dose (slice v) \<noteq> DOSE_ALL \<and> group (slice v) \<noteq> GROUP_ALL
                \<and> location (slice v) = LOCATION_ALL
                \<and> \<not> (period (source v) = ''weekly'' \<and> 737799 \<le> real_date (source v))) vs
   \<and> remove_aggregates (remove_aggregates vs) = remove_aggregates vs"
  by (simp add: remove_aggregates_filter FIRST_DAILY_DATA_def)

subsection \<open>Dose timing\<close>

lemma dose_lag_loop_map:
  "dose_lag_loop d1s vs =
     map (\<lambda>v. if dose (slice v) \<noteq> DOSE_2 then v
               else (case d1s (real_date (source v) - 84, location (slice v), group (slice v)) of
                       None \<Rightarrow> v
                     | Some dose1 \<Rightarrow> v\<lparr>vaccinated := max (vaccinated v) dose1, extrapolated := True\<rparr>)) vs"
  by (induction vs) (auto split: option.splits)

lemma fold_dose1s_lookup:
  "fold (\<lambda>v m. if dose (slice v) = DOSE_1
                  then m((real_date (source v), location (slice v), group (slice v)) \<mapsto> vaccinated v)
                  else m) vs m0 k =
     (let hits = filter (\<lambda>d. dose (slice d) = DOSE_1
                   \<and> (real_date (source d), location (slice d), group (slice d)) = k) vs
      in if hits = [] then m0 k else Some (vaccinated (last hits)))"
proof (induction vs arbitrary: m0)
  case Nil
  then show ?case by simp
next
  case (Cons v vs)
  show ?case
    unfolding fold_simps Cons.IH
    by (auto simp: Let_def)
qed

lemma dose1s_lookup:
  "dose1s_by_date_slice vs (d, l, g) =
     (let hits = filter (\<lambda>u. dose (slice u) = DOSE_1 \<and> real_date (source u) = d
                   \<and> location (slice u) = l \<and> group (slice u) = g) vs
      in if hits = [] then None else Some (vaccinated (last hits)))"
  unfolding dose1s_by_date_slice_def fold_dose1s_lookup by simp

text \<open>
  Claim C8.  \<open>add_12w_dose_lag\<close> maps the collection observation by observation.  A
  dose-2 observation for which a dose-1 observation exists at the \<open>real_date\<close> 12 weeks
  earlier with the same location and group becomes a copy whose count is the larger of
  its own count and the dose-1 count (that of the last such dose-1 observation, which is
  the one the dictionary holds) and whose \<open>extrapolated\<close> flag is set, also when its own
  count is the larger one; every other observation is passed through unchanged.
\<close>

theorem add_12w_dose_lag_floor:
  "add_12w_dose_lag vs =
     map (\<lambda>v. let hits = filter (\<lambda>d. dose (slice d) = DOSE_1
                             \<and> real_date (source d) = real_date (source v) - 12 * 7
                             \<and> location (slice d) = location (slice v)
                             \<and> group (slice d) = group (slice v)) vs
               in if dose (slice v) = DOSE_2 \<and> hits \<noteq> []
                  then v\<lparr>vaccinated := max (vaccinated v) (vaccinated (last hits)),
                         extrapolated := True\<rparr>
                  else v) vs"
  unfolding add_12w_dose_lag_def dose_lag_loop_map dose1s_lookup
  by (simp add: Let_def)

theorem add_12w_dose_lag_floor_example:
  "add_12w_dose_lag
     [observation ''daily'' 737800 1000 DOSE_1 (GROUP ''80+'') LOCATION_ALL,
      observation ''daily'' 737884 800 DOSE_2 (GROUP ''80+'') LOCATION_ALL,
      observation ''daily'' 737884 1200 DOSE_2 (GROUP ''80+'') LOCATION_ALL,
      observation ''daily'' 737885 800 DOSE_2 (GROUP ''80+'') LOCATION_ALL]
   = [observation ''daily'' 737800 1000 DOSE_1 (GROUP ''80+'') LOCATION_ALL,
      (observation ''daily'' 737884 1000 DOSE_2 (GROUP ''80+'') LOCATION_ALL)
        \<lparr>extrapolated := True\<rparr>,
      (observation ''daily'' 737884 1200 DOSE_2 (GROUP ''80+'') LOCATION_ALL)
        \<lparr>extrapolated := True\<rparr>,
      observation ''daily'' 737885 800 DOSE_2 (GROUP ''80+'') LOCATION_ALL]"
  unfolding add_12w_dose_lag_floor by (simp add: observation_def)

lemma py_max_Max: "xs \<noteq> [] \<Longrightarrow> py_max xs = Inr (Max (set xs))"
proof (cases xs)
  case Nil
  assume "xs \<noteq> []"
  with Nil show ?thesis by simp
next
  case (Cons x rest)
  then show ?thesis
    using Max.set_eq_fold [of x rest] by (simp add: py_max_def)
qed


lemma dose_2_wait_loop_map:
  "dose_2_wait_loop max_date vs =
     map (\<lambda>v. v\<lparr>slice := (slice v)\<lparr>dose := DOSE_2_PLUS_WAIT\<rparr>,
                 source := (source v)\<lparr>real_date := real_date (source v) + 7\<rparr>,
                 extrapolated := max_date < real_date (source v) + 7\<rparr>)
         (filter (\<lambda>v. dose (slice v) = DOSE_2) vs)"
  by (induction vs) (simp_all add: Let_def)

text \<open>
  Claim C9.  On a collection with at least one observation that is not extrapolated,
  \<open>add_dose_2_wait\<close> returns the input followed by one new observation for every dose-2
  observation, in order: the same observation with dose \<open>DOSE_2_PLUS_WAIT\<close>, \<open>real_date\<close>
  seven days later, the same count, and \<open>extrapolated\<close> set exactly when the shifted date
  is later than the greatest \<open>real_date\<close> of the observations that are not extrapolated.
\<close>

theorem add_dose_2_wait_shift:
  assumes "\<not> list_all extrapolated vs"
  shows "add_dose_2_wait vs =
     Inr (vs @ map (\<lambda>v. v\<lparr>slice := (slice v)\<lparr>dose := DOSE_2_PLUS_WAIT\<rparr>,
                          source := (source v)\<lparr>real_date := real_date (source v) + 7\<rparr>,
                          extrapolated :=
                            Max (set (map (\<lambda>u. real_date (source u))
                                          (filter (\<lambda>u. \<not> extrapolated u) vs)))
                              < real_date (source v) + 7\<rparr>)
                   (filter (\<lambda>v. dose (slice v) = DOSE_2) vs))"
proof -
  from assms have "filter (\<lambda>u. \<not> extrapolated u) vs \<noteq> []"
    by (auto simp: list_all_iff filter_empty_conv)
  then have "map (\<lambda>u. real_date (source u)) (filter (\<lambda>u. \<not> extrapolated u) vs) \<noteq> []"
    by simp
  from py_max_Max[OF this] show ?thesis
    by (simp add: add_dose_2_wait_def dose_2_wait_loop_map)
qed

theorem add_dose_2_wait_shift_example:
  "\<not> list_all extrapolated
       [observation ''daily'' 737800 900 DOSE_1 (GROUP ''80+'') LOCATION_ALL,
        observation ''daily'' 737790 300 DOSE_2 (GROUP ''80+'') LOCATION_ALL,
        observation ''daily'' 737796 400 DOSE_2 (GROUP ''80+'') LOCATION_ALL]
   \<and> add_dose_2_wait
       [observation ''daily'' 737800 900 DOSE_1 (GROUP ''80+'') LOCATION_ALL,
        observation ''daily'' 737790 300 DOSE_2 (GROUP ''80+'') LOCATION_ALL,
        observation ''daily'' 737796 400 DOSE_2 (GROUP ''80+'') LOCATION_ALL]
     = Inr [observation ''daily'' 737800 900 DOSE_1 (GROUP ''80+'') LOCATION_ALL,
            observation ''daily'' 737790 300 DOSE_2 (GROUP ''80+'') LOCATION_ALL,
            observation ''daily'' 737796 400 DOSE_2 (GROUP ''80+'') LOCATION_ALL,
            (observation ''daily'' 737790 300 DOSE_2_PLUS_WAIT (GROUP ''80+'') LOCATION_ALL)
              \<lparr>source := \<lparr>origin = ''report'', data_date = 737790,
                           real_date = 737797, period = ''daily''\<rparr>\<rparr>,
            (observation ''daily'' 737796 400 DOSE_2_PLUS_WAIT (GROUP ''80+'') LOCATION_ALL)
              \<lparr>source := \<lparr>origin = ''report'', data_date = 737796,
                           real_date = 737803, period = ''daily''\<rparr>,
                extrapolated := True\<rparr>]"
proof -
  have h: "\<not> list_all extrapolated
       [observation ''daily'' 737800 900 DOSE_1 (GROUP ''80+'') LOCATION_ALL,
        observation ''daily'' 737790 300 DOSE_2 (GROUP ''80+'') LOCATION_ALL,
        observation ''daily'' 737796 400 DOSE_2 (GROUP ''80+'') LOCATION_ALL]"
    by (simp add: observation_def)
  show ?thesis
    using h add_dose_2_wait_shift [OF h] by (simp add: observation_def)
qed



subsection \<open>Cumulative conversion\<close>


























subsection \<open>Forecasting\<close>









subsection \<open>Deaggregation by interpolation\<close>




lemma sum_on_weekly:
  assumes "t \<in> set dates"
  shows "sum_list (map (\<lambda>(d, ddate, v). v)
            (filter (\<lambda>(d, ddate, v). ddate = t \<and> P d) (dim_date_vaccinated dm dates weekly)))
       = sum_list (map vaccinated
            (filter (\<lambda>w. real_date (source w) = t \<and> P (getattr (slice w) dm)) weekly))"
proof -
  have "filter (\<lambda>(d, ddate, v). ddate = t \<and> P d) (dim_date_vaccinated dm dates weekly)
      = map (\<lambda>v. (getattr (slice v) dm, real_date (source v), vaccinated v))
            (filter (\<lambda>w. real_date (source w) = t \<and> P (getattr (slice w) dm)) weekly)"
    unfolding dim_date_vaccinated_def filter_map filter_filter comp_def
    using assms by (auto intro!: arg_cong2 [where f = map] filter_cong)
  then show ?thesis by (simp add: comp_def)
qed



lemma nearest_dates_props:
  "length (nearest_dates itd aggregate weekly) \<le> 2
   \<and> distinct (nearest_dates itd aggregate weekly)
   \<and> sorted (nearest_dates itd aggregate weekly)
   \<and> set (nearest_dates itd aggregate weekly) \<subseteq> (\<lambda>w. real_date (source w)) ` set weekly"
proof -
  have "set (take 2 (sort_key (\<lambda>d. \<bar>d - real_date (source aggregate)\<bar>)
                (set_iter itd (map (\<lambda>v. real_date (source v)) weekly))))
        \<subseteq> set (sort_key (\<lambda>d. \<bar>d - real_date (source aggregate)\<bar>)
                (set_iter itd (map (\<lambda>v. real_date (source v)) weekly)))"
    by (rule set_take_subset)
  then show ?thesis
    by (simp add: nearest_dates_def set_iter_distinct set_iter_set)
qed

lemma nearest_dates_two:
  assumes "1 < length (nearest_dates itd aggregate weekly)"
  shows "nearest_dates itd aggregate weekly
           = [nearest_dates itd aggregate weekly ! 0, nearest_dates itd aggregate weekly ! 1]
       \<and> nearest_dates itd aggregate weekly ! 0 < nearest_dates itd aggregate weekly ! 1"
proof -
  let ?ds = "nearest_dates itd aggregate weekly"
  from assms nearest_dates_props [of itd aggregate weekly]
  have len: "length ?ds = 2" and dist: "distinct ?ds" and srt: "sorted ?ds" by auto
  from len obtain a b where ab: "?ds = [a, b]"
    by (cases ?ds; cases "tl ?ds") auto
  with dist srt have "a < b" by auto
  with ab show ?thesis by simp
qed



text \<open>The two selected dates are nearest to the aggregate's \<open>real_date\<close>.\<close>

lemma nearest_dates_nearest:
  assumes "d \<in> set (nearest_dates itd aggregate weekly)"
    and "w \<in> set weekly"
    and "real_date (source w) \<notin> set (nearest_dates itd aggregate weekly)"
  shows "\<bar>d - real_date (source aggregate)\<bar>
           \<le> \<bar>real_date (source w) - real_date (source aggregate)\<bar>"
proof -
  define key where "key = (\<lambda>d. \<bar>d - real_date (source aggregate)\<bar>)"
  define S where "S = sort_key key (set_iter itd (map (\<lambda>v. real_date (source v)) weekly))"
  have set_dates: "set (nearest_dates itd aggregate weekly) = set (take 2 S)"
    by (simp add: nearest_dates_def S_def key_def)
  have "sorted (map key S)" by (simp add: S_def)
  then have "sorted (map key (take 2 S) @ map key (drop 2 S))"
    by (simp flip: map_append)
  then have le: "\<And>a b. a \<in> set (take 2 S) \<Longrightarrow> b \<in> set (drop 2 S) \<Longrightarrow> key a \<le> key b"
    by (auto simp: sorted_append)
  have "real_date (source w) \<in> set S"
    using assms(2) by (simp add: S_def set_iter_set)
  then have "real_date (source w) \<in> set (take 2 S) \<union> set (drop 2 S)"
    by (simp flip: set_append)
  with assms(3) set_dates have "real_date (source w) \<in> set (drop 2 S)" by simp
  moreover from assms(1) set_dates have "d \<in> set (take 2 S)" by simp
  ultimately show ?thesis using le unfolding key_def by blast
qed

lemma emap_Inr_all:
  "(\<And>x. x \<in> set xs \<Longrightarrow> f x = Inr (g x)) \<Longrightarrow> emap f xs = Inr (map g xs)"
  by (induction xs) simp_all

text \<open>
  With two or more weekly dates, and weekly counts that do not sum to zero on either
  selected date, an observation is emitted for every value of the dimension.
\<close>

lemma deaggregate_with_interpolation_returns:
  assumes two: "2 \<le> card ((\<lambda>w. real_date (source w)) ` set (vaccinated_weekly aggregate dm vs))"
    and nz: "\<And>t. t \<in> set (nearest_dates itd aggregate (vaccinated_weekly aggregate dm vs)) \<Longrightarrow>
           sum_list (map vaccinated (filter (\<lambda>w. real_date (source w) = t)
                                            (vaccinated_weekly aggregate dm vs))) \<noteq> 0"
  shows "\<exists>out. deaggregate_with_interpolation itd itv aggregate dm vs = ([], Inr out)
           \<and> map slice out
               = map (replace_dim (slice aggregate) dm)
                     (set_iter itv (map (\<lambda>v. getattr (slice v) dm)
                                        (vaccinated_weekly aggregate dm vs)))"
proof -
  let ?weekly = "vaccinated_weekly aggregate dm vs"
  let ?S = "set_iter itd (map (\<lambda>v. real_date (source v)) ?weekly)"
  let ?dates = "nearest_dates itd aggregate ?weekly"
  let ?ddv = "dim_date_vaccinated dm ?dates ?weekly"
  have "card (set ?S) = length ?S"
    by (rule distinct_card) (rule set_iter_distinct)
  with two have lenS: "2 \<le> length ?S" by (simp add: set_iter_set)
  then have len: "length ?dates = 2" by (simp add: nearest_dates_def)
  have "card ((\<lambda>w. real_date (source w)) ` set ?weekly) \<le> length ?weekly"
    by (metis card_image_le card_length le_trans List.finite_set)
  with two have many: "\<not> length ?weekly < 2" by simp
  from len nearest_dates_two [of itd aggregate ?weekly]
  have lt: "?dates ! 0 < ?dates ! 1" by simp
  from len have in0: "?dates ! 0 \<in> set ?dates" and in1: "?dates ! Suc 0 \<in> set ?dates"
    by (simp_all del: One_nat_def)
  have sums: "\<And>i P. i < 2 \<Longrightarrow> sum_on ?ddv ?dates i P
       = Inr (sum_list (map vaccinated
            (filter (\<lambda>w. real_date (source w) = ?dates ! i \<and> P (getattr (slice w) dm)) ?weekly)))"
  proof -
    fix i :: nat and P assume i: "i < 2"
    with len have m: "?dates ! i \<in> set ?dates" by simp
    show "sum_on ?ddv ?dates i P
       = Inr (sum_list (map vaccinated
            (filter (\<lambda>w. real_date (source w) = ?dates ! i \<and> P (getattr (slice w) dm)) ?weekly)))"
    proof (cases "?ddv = []")
      case True
      then have "filter (\<lambda>w. real_date (source w) \<in> set ?dates) ?weekly = []"
        by (simp add: dim_date_vaccinated_def)
      then have "filter (\<lambda>w. real_date (source w) = ?dates ! i \<and> P (getattr (slice w) dm)) ?weekly = []"
        using m by (auto simp: filter_empty_conv)
      with True show ?thesis by (simp add: sum_on_def)
    next
      case False
      with i len show ?thesis
        by (simp add: sum_on_def py_index_def sum_on_weekly [OF m])
    qed
  qed
  define mk where "mk = (\<lambda>v. \<lparr>source = source aggregate,
       vaccinated = of_int (py_int (vaccinated aggregate *
          (spec_ratio dm ?weekly (?dates ! 0) v
             + (spec_ratio dm ?weekly (?dates ! 1) v - spec_ratio dm ?weekly (?dates ! 0) v)
               / of_int (?dates ! 1 - ?dates ! 0)
               * of_int (data_date (source aggregate) - ?dates ! 0)))),
       slice = replace_dim (slice aggregate) dm v,
       extrapolated = False,
       interpolated = True\<rparr>)"
  have each: "\<And>v. interpolate aggregate dm ?ddv ?dates v = Inr (mk v)"
  proof -
    fix v
    have r0: "ratio_on ?ddv ?dates 0 v = Inr (spec_ratio dm ?weekly (?dates ! 0) v)"
      using nz [OF in0] by (simp add: ratio_on_def sums spec_ratio_def)
    have r1: "ratio_on ?ddv ?dates (Suc 0) v = Inr (spec_ratio dm ?weekly (?dates ! Suc 0) v)"
      using nz [OF in1] by (simp add: ratio_on_def sums spec_ratio_def)
    from lt len show "interpolate aggregate dm ?ddv ?dates v = Inr (mk v)"
      by (simp add: interpolate_def r0 r1 py_index_def mk_def Let_def)
  qed
  have "emap (interpolate aggregate dm ?ddv ?dates)
             (set_iter itv (map (\<lambda>v. getattr (slice v) dm) ?weekly))
        = Inr (map mk (set_iter itv (map (\<lambda>v. getattr (slice v) dm) ?weekly)))"
    by (rule emap_Inr_all) (rule each)
  with many have "deaggregate_with_interpolation itd itv aggregate dm vs
      = ([], Inr (map mk (set_iter itv (map (\<lambda>v. getattr (slice v) dm) ?weekly))))"
    by (simp add: deaggregate_with_interpolation_def Let_def)
  moreover have "map slice (map mk (set_iter itv (map (\<lambda>v. getattr (slice v) dm) ?weekly)))
      = map (replace_dim (slice aggregate) dm)
            (set_iter itv (map (\<lambda>v. getattr (slice v) dm) ?weekly))"
    by (simp add: mk_def comp_def)
  ultimately show ?thesis by blast
qed

subsection \<open>Too few weekly dates\<close>

lemma set_iter_one: "set_iter it [a] = [a]"
proof -
  have d: "distinct (set_iter it [a])" and s: "set (set_iter it [a]) = {a}"
    by (simp_all add: set_iter_distinct set_iter_set)
  show ?thesis
  proof (cases "set_iter it [a]")
    case Nil
    with s show ?thesis by simp
  next
    case (Cons y ys)
    with d s have "y = a" "set ys \<subseteq> {a}" "a \<notin> set ys" by auto
    then have "ys = []" by (cases ys) auto
    with Cons \<open>y = a\<close> show ?thesis by simp
  qed
qed

lemma set_iter_same: "set xs = {a} \<Longrightarrow> set_iter it xs = [a]"
proof -
  assume x: "set xs = {a}"
  have d: "distinct (set_iter it xs)" and s: "set (set_iter it xs) = {a}"
    by (simp_all add: set_iter_distinct set_iter_set x)
  show ?thesis
  proof (cases "set_iter it xs")
    case Nil
    with s show ?thesis by simp
  next
    case (Cons y ys)
    with d s have "y = a" "set ys \<subseteq> {a}" "a \<notin> set ys" by auto
    then have "ys = []" by (cases ys) auto
    with Cons \<open>y = a\<close> show ?thesis by simp
  qed
qed

lemma emap_all_raise:
  "xs \<noteq> [] \<Longrightarrow> (\<And>x. x \<in> set xs \<Longrightarrow> f x = Inl e) \<Longrightarrow> emap f xs = Inl e"
  by (cases xs) simp_all

text \<open>Two or more weekly samples, all of one date: the second date is read and is not there.\<close>

lemma one_weekly_date_raises:
  assumes "2 \<le> length (vaccinated_weekly aggregate dm vs)"
    and "\<And>w. w \<in> set (vaccinated_weekly aggregate dm vs) \<Longrightarrow> real_date (source w) = d"
  shows "deaggregate_with_interpolation itd itv aggregate dm vs =
     ([], Inl (if sum_list (map vaccinated (vaccinated_weekly aggregate dm vs)) = 0
               then ZeroDivisionError else IndexError))"
proof -
  let ?weekly = "vaccinated_weekly aggregate dm vs"
  from assms(1) have ne: "?weekly \<noteq> []" by auto
  with assms(2) have "set (map (\<lambda>v. real_date (source v)) ?weekly) = {d}"
    by (cases ?weekly) auto
  then have "set_iter itd (map (\<lambda>v. real_date (source v)) ?weekly) = [d]"
    by (rule set_iter_same)
  then have dates: "nearest_dates itd aggregate ?weekly = [d]"
    by (simp add: nearest_dates_def)
  have "filter (\<lambda>v. real_date (source v) \<in> set [d]) ?weekly = ?weekly"
    using assms(2) by (simp add: filter_id_conv)
  then have ddv: "dim_date_vaccinated dm [d] ?weekly
      = map (\<lambda>v. (getattr (slice v) dm, real_date (source v), vaccinated v)) ?weekly"
    by (simp add: dim_date_vaccinated_def)
  have ddv_ne: "dim_date_vaccinated dm [d] ?weekly \<noteq> []"
    using ne by (simp add: ddv)
  have "sum_list (map (\<lambda>(dv, ddate, v). v)
            (filter (\<lambda>(dv, ddate, v). ddate = d \<and> True) (dim_date_vaccinated dm [d] ?weekly)))
       = sum_list (map vaccinated (filter (\<lambda>w. real_date (source w) = d \<and> True) ?weekly))"
    by (rule sum_on_weekly) simp
  moreover have "filter (\<lambda>w. real_date (source w) = d \<and> True) ?weekly = ?weekly"
    using assms(2) by (simp add: filter_id_conv)
  ultimately have tot: "sum_list (map (\<lambda>(dv, ddate, v). v)
            (filter (\<lambda>(dv, ddate, v). ddate = d) (dim_date_vaccinated dm [d] ?weekly)))
       = sum_list (map vaccinated ?weekly)"
    by simp
  have total: "sum_on (dim_date_vaccinated dm [d] ?weekly) [d] 0 (\<lambda>d. True)
      = Inr (sum_list (map vaccinated ?weekly))"
    using ddv_ne by (simp add: sum_on_def py_index_def tot)
  have second: "\<And>P. sum_on (dim_date_vaccinated dm [d] ?weekly) [d] (Suc 0) P = Inl IndexError"
    using ddv_ne by (simp add: sum_on_def py_index_def)
  have first: "\<And>v. \<exists>n. sum_on (dim_date_vaccinated dm [d] ?weekly) [d] 0 (\<lambda>d. d = v) = Inr n"
    using ddv_ne by (simp add: sum_on_def py_index_def)
  have each: "\<And>v. interpolate aggregate dm (dim_date_vaccinated dm [d] ?weekly) [d] v
      = Inl (if sum_list (map vaccinated ?weekly) = 0 then ZeroDivisionError else IndexError)"
  proof -
    fix v
    from first [of v] obtain n where
      n: "sum_on (dim_date_vaccinated dm [d] ?weekly) [d] 0 (\<lambda>d. d = v) = Inr n" by blast
    show "interpolate aggregate dm (dim_date_vaccinated dm [d] ?weekly) [d] v
      = Inl (if sum_list (map vaccinated ?weekly) = 0 then ZeroDivisionError else IndexError)"
      by (simp add: interpolate_def ratio_on_def n total second)
  qed
  have vals: "set_iter itv (map (\<lambda>v. getattr (slice v) dm) ?weekly) \<noteq> []"
    using ne set_iter_set [of itv "map (\<lambda>v. getattr (slice v) dm) ?weekly"]
    by (cases ?weekly) auto
  from assms(1) have "\<not> length ?weekly < 2" by simp
  then show ?thesis
    by (simp add: deaggregate_with_interpolation_def Let_def dates
        emap_all_raise [OF vals each])
qed

lemma few_samples_skip:
  "length (vaccinated_weekly aggregate dm vs) < 2 \<Longrightarrow>
   deaggregate_with_interpolation itd itv aggregate dm vs =
     ([Failed_to_interpolate (slice aggregate) (real_date (source aggregate))
         (length (vaccinated_weekly aggregate dm vs))], Inr [])"
  by (simp add: deaggregate_with_interpolation_def)

lemma one_week_example_weekly:
  "vaccinated_weekly (hd one_week_example) DimDose one_week_example = tl one_week_example"
  by (simp add: one_week_example_def vaccinated_weekly_def observation_def
      other_dims_def SLICE_DIMS_def)

lemma one_week_example_raises:
  "deaggregate_with_interpolation itd itv (hd one_week_example) DimDose one_week_example
     = ([], Inl IndexError)"
proof -
  have "deaggregate_with_interpolation itd itv (hd one_week_example) DimDose one_week_example
     = ([], Inl (if sum_list (map vaccinated
                   (vaccinated_weekly (hd one_week_example) DimDose one_week_example)) = 0
               then ZeroDivisionError else IndexError))"
    by (rule one_weekly_date_raises [where d = 737791])
       (auto simp: one_week_example_weekly, auto simp: one_week_example_def observation_def)
  then show ?thesis
    by (simp add: one_week_example_weekly) (simp add: one_week_example_def observation_def)
qed

text \<open>
  Claim C3.  The guard of \<open>deaggregate_with_interpolation\<close> counts weekly samples, not
  weekly dates.  For the daily aggregate over the doses of \<open>one_week_example\<close> the matching
  weekly samples are two, both of 2021-01-01, so there is one weekly date only; the guard
  lets them pass, no diagnostic is printed, and reading the second date raises
  \<open>IndexError\<close>, whatever the iteration orders are.
\<close>

theorem deaggregate_one_week_raises:
  "map (\<lambda>w. real_date (source w))
       (vaccinated_weekly (hd one_week_example) DimDose one_week_example)
     = [737791, 737791]
   \<and> deaggregate_with_interpolation itd itv (hd one_week_example) DimDose one_week_example
     = ([], Inl IndexError)"
  by (simp add: one_week_example_raises one_week_example_weekly)
     (simp add: one_week_example_def observation_def)

subsection \<open>Peers\<close>

lemma unaggregates_dose: "unaggregates aggregate DimDose xs = spec_peers aggregate DimDose xs"
  unfolding unaggregates_def spec_peers_def
  by (rule filter_cong) (auto simp: other_dims_def SLICE_DIMS_def)

lemma unaggregates_group_location:
  assumes "dm \<noteq> DimDose" and "is_all (getattr (slice aggregate) dm)"
  shows "unaggregates aggregate dm xs = []"
proof (cases dm)
  case DimDose
  with assms(1) show ?thesis by simp
next
  case DimGroup
  with assms(2) show ?thesis by (auto simp: unaggregates_def filter_empty_conv)
next
  case DimLocation
  with assms(2) show ?thesis by (auto simp: unaggregates_def filter_empty_conv)
qed

lemma set_iter_twice: "set_iter it [a, a] = [a]"
  by (rule set_iter_same) simp

text \<open>
  Claim C2.  In \<open>group_peer_example\<close> the daily aggregate over the groups (count 5000) has,
  by the specification's definition, one peer: the daily observation of the same date,
  dose and location for one group (count 100).  \<open>add_deaggregates\<close> finds no peer, because
  it also asks a peer to have the aggregate's own group; so it does not compare the two
  counts, which differ beyond both tolerances, and attempts the interpolation instead,
  which prints its diagnostic for want of weekly samples.
\<close>

theorem group_peers_ignored:
  "spec_peers (hd group_peer_example) DimGroup group_peer_example = tl group_peer_example
   \<and> unaggregates (hd group_peer_example) DimGroup group_peer_example = []
   \<and> add_deaggregates itd itv group_peer_example
     = ([Failed_to_interpolate
           \<lparr>dose = DOSE_1, group = GROUP_ALL, location = LOCATION ''England''\<rparr> 737794 0],
        Inr group_peer_example)"
  by (simp add: group_peer_example_def observation_def spec_peers_def unaggregates_def
      other_dims_def SLICE_DIMS_def add_deaggregates_def date_step_def aggregate_step_def
      set_iter_twice deaggregate_with_interpolation_def vaccinated_weekly_def)

subsection \<open>The consistency assertion\<close>

lemma emap_Inl: "emap f xs = Inl e \<Longrightarrow> \<exists>x \<in> set xs. f x = Inl e"
proof (induction xs)
  case Nil
  then show ?case by simp
next
  case (Cons x xs)
  then show ?case
    by (cases "f x"; cases "emap f xs") auto
qed

lemma sum_on_Inl: "sum_on ddv dates i P = Inl e \<Longrightarrow> e = IndexError"
  by (auto simp: sum_on_def py_index_def split: if_splits)

lemma ratio_on_Inl: "ratio_on ddv dates i v = Inl e \<Longrightarrow> e = IndexError \<or> e = ZeroDivisionError"
  unfolding ratio_on_def
  by (cases "sum_on ddv dates i (\<lambda>d. d = v)"; cases "sum_on ddv dates i (\<lambda>d. True)")
     (auto dest: sum_on_Inl split: if_splits)

lemma interpolate_Inl:
  assumes "interpolate aggregate dm ddv dates v = Inl e"
  shows "e = IndexError \<or> e = ZeroDivisionError"
proof (cases "ratio_on ddv dates 0 v")
  case (Inl a)
  with assms ratio_on_Inl [of ddv dates 0 v a] show ?thesis by (simp add: interpolate_def)
next
  case r0: (Inr ratio0)
  show ?thesis
  proof (cases "ratio_on ddv dates 1 v")
    case (Inl a)
    with assms r0 ratio_on_Inl [of ddv dates 1 v a] show ?thesis by (simp add: interpolate_def)
  next
    case r1: (Inr ratio1)
    with assms r0 show ?thesis
      by (auto simp: interpolate_def py_index_def Let_def split: if_splits)
  qed
qed

lemma deaggregate_never_asserts:
  "deaggregate_with_interpolation itd itv aggregate dm vs \<noteq> (printed, Inl AssertionError)"
proof
  assume a: "deaggregate_with_interpolation itd itv aggregate dm vs = (printed, Inl AssertionError)"
  then have "\<exists>ddv dates xs. emap (interpolate aggregate dm ddv dates) xs = Inl AssertionError"
    by (auto simp: deaggregate_with_interpolation_def Let_def split: if_splits)
  then obtain ddv dates v where "interpolate aggregate dm ddv dates v = Inl AssertionError"
    using emap_Inl by blast
  from interpolate_Inl [OF this] show False by simp
qed

text \<open>The assertion fails for an aggregate exactly when its peers are beyond both tolerances.\<close>

lemma aggregate_step_asserts:
  "(\<exists>printed. aggregate_step itd itv vs dm on_date aggregate = (printed, Inl AssertionError))
     \<longleftrightarrow> beyond_tolerance aggregate (unaggregates aggregate dm on_date)"
  using deaggregate_never_asserts [of itd itv aggregate dm vs]
  by (auto simp: aggregate_step_def beyond_tolerance_def Let_def not_less)

text \<open>Within either tolerance nothing is raised and nothing is emitted for the aggregate.\<close>

lemma aggregate_step_within_tolerance:
  assumes "unaggregates aggregate dm on_date \<noteq> []"
    and "\<bar>vaccinated aggregate - sum_list (map vaccinated (unaggregates aggregate dm on_date))\<bar> < 1000
       \<or> sum_list (map vaccinated (unaggregates aggregate dm on_date)) \<noteq> 0
         \<and> \<bar>vaccinated aggregate - sum_list (map vaccinated (unaggregates aggregate dm on_date))\<bar>
             / sum_list (map vaccinated (unaggregates aggregate dm on_date)) < 5 / 100"
  shows "aggregate_step itd itv vs dm on_date aggregate = ([], Inr [])"
  using assms by (auto simp: aggregate_step_def Let_def)

lemma collect_Inl:
  "collect f xs = (printed, Inl e) \<Longrightarrow> \<exists>x \<in> set xs. \<exists>p. f x = (p, Inl e)"
proof (induction xs arbitrary: printed)
  case Nil
  then show ?case by simp
next
  case (Cons x xs)
  obtain p r where fx: "f x = (p, r)" by (cases "f x")
  show ?case
  proof (cases r)
    case (Inl a)
    with Cons.prems fx show ?thesis by auto
  next
    case (Inr ys)
    obtain p' r' where c: "collect f xs = (p', r')" by (cases "collect f xs")
    with Cons.prems fx Inr have "r' = Inl e" by (cases r') auto
    with c Cons.IH [of p'] show ?thesis by auto
  qed
qed

lemma collect_raises:
  "x \<in> set xs \<Longrightarrow> f x = (p, Inl e) \<Longrightarrow> \<exists>p' e'. collect f xs = (p', Inl e')"
proof (induction xs)
  case Nil
  then show ?case by simp
next
  case (Cons y ys)
  obtain q r where fy: "f y = (q, r)" by (cases "f y")
  show ?case
  proof (cases r)
    case (Inl a)
    with fy show ?thesis by simp
  next
    case (Inr zs)
    show ?thesis
    proof (cases "x = y")
      case True
      with Cons.prems fy Inr show ?thesis by simp
    next
      case False
      with Cons obtain p' e' where "collect f ys = (p', Inl e')" by auto
      with fy Inr show ?thesis by simp
    qed
  qed
qed

text \<open>
  \<open>add_deaggregates\<close> fails its assertion only for a daily aggregate whose peers are
  beyond both tolerances, and it raises whenever there is such an aggregate.
\<close>

lemma add_deaggregates_asserts:
  assumes "add_deaggregates itd itv vs = (printed, Inl AssertionError)"
  shows "\<exists>dm aggregate. aggregate \<in> set vs \<and> period (source aggregate) = ''daily''
           \<and> is_all (getattr (slice aggregate) dm)
           \<and> beyond_tolerance aggregate
                (unaggregates aggregate dm
                   (filter (\<lambda>v. real_date (source v) = real_date (source aggregate))
                           (filter (\<lambda>v. period (source v) = ''daily'') vs)))"
proof -
  let ?daily = "filter (\<lambda>v. period (source v) = ''daily'') vs"
  let ?dates = "set_iter itd (map (\<lambda>v. real_date (source v)) ?daily)"
  from assms obtain p where
    "collect (\<lambda>dm. collect (date_step itd itv vs ?daily dm) ?dates) SLICE_DIMS
       = (p, Inl AssertionError)"
    by (auto simp: add_deaggregates_def Let_def split: prod.splits sum.splits)
  from collect_Inl [OF this] obtain dm p1 where
    "collect (date_step itd itv vs ?daily dm) ?dates = (p1, Inl AssertionError)" by blast
  from collect_Inl [OF this] obtain date p2 where
    "date_step itd itv vs ?daily dm date = (p2, Inl AssertionError)" by blast
  then have "collect (aggregate_step itd itv vs dm (filter (\<lambda>v. real_date (source v) = date) ?daily))
       (filter (\<lambda>v. is_all (getattr (slice v) dm)) (filter (\<lambda>v. real_date (source v) = date) ?daily))
       = (p2, Inl AssertionError)"
    by (simp add: date_step_def Let_def)
  from collect_Inl [OF this] obtain aggregate p3 where
    a: "aggregate \<in> set (filter (\<lambda>v. is_all (getattr (slice v) dm))
                         (filter (\<lambda>v. real_date (source v) = date) ?daily))" and
    s: "aggregate_step itd itv vs dm (filter (\<lambda>v. real_date (source v) = date) ?daily) aggregate
          = (p3, Inl AssertionError)"
    by blast
  from a have d: "real_date (source aggregate) = date" by simp
  from s aggregate_step_asserts [of itd itv vs dm _ aggregate]
  have "beyond_tolerance aggregate
          (unaggregates aggregate dm (filter (\<lambda>v. real_date (source v) = date) ?daily))"
    by blast
  with a d show ?thesis by auto
qed

lemma add_deaggregates_raises:
  assumes "aggregate \<in> set vs" and "period (source aggregate) = ''daily''"
    and "is_all (getattr (slice aggregate) dm)"
    and "beyond_tolerance aggregate
                (unaggregates aggregate dm
                   (filter (\<lambda>v. real_date (source v) = real_date (source aggregate))
                           (filter (\<lambda>v. period (source v) = ''daily'') vs)))"
  shows "\<exists>printed e. add_deaggregates itd itv vs = (printed, Inl e)"
proof -
  define daily where "daily = filter (\<lambda>v. period (source v) = ''daily'') vs"
  define dates where "dates = set_iter itd (map (\<lambda>v. real_date (source v)) daily)"
  define date where "date = real_date (source aggregate)"
  define on_date where "on_date = filter (\<lambda>v. real_date (source v) = date) daily"
  define aggregates where "aggregates = filter (\<lambda>v. is_all (getattr (slice v) dm)) on_date"
  from assms(4) have "beyond_tolerance aggregate (unaggregates aggregate dm on_date)"
    by (simp add: on_date_def date_def daily_def)
  with aggregate_step_asserts [of itd itv vs dm on_date aggregate]
  obtain p where step: "aggregate_step itd itv vs dm on_date aggregate = (p, Inl AssertionError)"
    by blast
  from assms(1-3) have mem: "aggregate \<in> set aggregates"
    by (simp add: aggregates_def on_date_def date_def daily_def)
  from collect_raises [of aggregate aggregates "aggregate_step itd itv vs dm on_date", OF mem step] obtain p1 e1 where
    "collect (aggregate_step itd itv vs dm on_date) aggregates = (p1, Inl e1)"
    by blast
  then have d: "date_step itd itv vs daily dm date = (p1, Inl e1)"
    by (simp add: date_step_def Let_def aggregates_def on_date_def)
  from assms(1,2) have dm: "date \<in> set dates"
    by (simp add: dates_def set_iter_set date_def daily_def)
  from collect_raises [of date dates "date_step itd itv vs daily dm", OF dm d] obtain p2 e2 where
    c: "collect (date_step itd itv vs daily dm) dates = (p2, Inl e2)"
    by blast
  have "dm \<in> set SLICE_DIMS" by (cases dm) (simp_all add: SLICE_DIMS_def)
  from collect_raises [of dm SLICE_DIMS "\<lambda>dm. collect (date_step itd itv vs daily dm) dates",
      OF this c]
  obtain p3 e3 where
    "collect (\<lambda>dm. collect (date_step itd itv vs daily dm) dates) SLICE_DIMS = (p3, Inl e3)"
    by blast
  then show ?thesis
    by (simp add: add_deaggregates_def Let_def daily_def dates_def)
qed

text \<open>
  Claim C4.  In \<open>one_week_example\<close> no observation has a peer for any dimension, by the
  code's definition or by the specification's, so no peer set is beyond tolerance; yet
  \<open>add_deaggregates\<close> raises, with the \<open>IndexError\<close> of the interpolation of its daily
  aggregate.
\<close>

theorem add_deaggregates_one_week_raises:
  "list_all (\<lambda>dm. list_all (\<lambda>a. unaggregates a dm one_week_example = []
                               \<and> spec_peers a dm one_week_example = [])
                          one_week_example) SLICE_DIMS
   \<and> add_deaggregates itd itv one_week_example = ([], Inl IndexError)"
proof -
  have peers: "list_all (\<lambda>dm. list_all (\<lambda>a. unaggregates a dm one_week_example = []
                               \<and> spec_peers a dm one_week_example = [])
                          one_week_example) SLICE_DIMS"
    by (simp add: one_week_example_def observation_def spec_peers_def unaggregates_def
        other_dims_def SLICE_DIMS_def)
  have daily: "filter (\<lambda>v. period (source v) = ''daily'') one_week_example
      = [hd one_week_example]"
    by (simp add: one_week_example_def observation_def)
  have date: "real_date (source (hd one_week_example)) = 737794"
    and wild: "dose (slice (hd one_week_example)) = DOSE_ALL"
    by (simp_all add: one_week_example_def observation_def)
  have alone: "unaggregates (hd one_week_example) DimDose [hd one_week_example] = []"
    by (simp add: unaggregates_def one_week_example_def observation_def)
  have "date_step itd itv one_week_example [hd one_week_example] DimDose 737794
      = ([], Inl IndexError)"
    by (simp add: date_step_def date wild aggregate_step_def alone one_week_example_raises)
  then have "add_deaggregates itd itv one_week_example = ([], Inl IndexError)"
    by (simp add: add_deaggregates_def daily SLICE_DIMS_def set_iter_one date)
  with peers show ?thesis by simp
qed

end
